theory Spec2Isabelle
  imports Main
begin

section \<open>JavaScript values\<close>

text \<open>
  The handlers of the dashboard work on dynamically typed values: whatever
  \<^verbatim>\<open>JSON.parse\<close> returns, the raw text of a frame when parsing fails, or a binary
  frame. Numbers are never computed with, so integers stand for them. Strings are byte
  lists, the non-ASCII literals of the source being written in UTF-8.
\<close>

datatype jsval =
    JUndefined
  | JNull
  | JBool bool
  | JNum int
  | JStr string
  | JArr "jsval list"
  | JObj "(string \<times> jsval) list"
  | JBinary

datatype error = TypeError | SyntaxError

text \<open>
  Reading a property: \<^verbatim>\<open>v.k\<close> throws a TypeError on \<^verbatim>\<open>null\<close> and
  \<^verbatim>\<open>undefined\<close>, gives the stored value on an object and \<^verbatim>\<open>undefined\<close> when the
  key is missing. The keys the source reads (type, level, message, data, side, amount,
  symbol) are no properties of strings, numbers, booleans or arrays; a binary frame is a
  Blob, whose \<^verbatim>\<open>type\<close> is the empty string.
\<close>

fun getProp :: "jsval \<Rightarrow> string \<Rightarrow> error + jsval" where
  "getProp JUndefined k = Inl TypeError"
| "getProp JNull k = Inl TypeError"
| "getProp (JObj kvs) k = Inr (case map_of kvs k of None \<Rightarrow> JUndefined | Some v \<Rightarrow> v)"
| "getProp JBinary k = Inr (if k = ''type'' then JStr [] else JUndefined)"
| "getProp (JBool b) k = Inr JUndefined"
| "getProp (JNum n) k = Inr JUndefined"
| "getProp (JStr s) k = Inr JUndefined"
| "getProp (JArr xs) k = Inr JUndefined"

fun truthy :: "jsval \<Rightarrow> bool" where
  "truthy JUndefined = False"
| "truthy JNull = False"
| "truthy (JBool b) = b"
| "truthy (JNum n) = (n \<noteq> 0)"
| "truthy (JStr s) = (s \<noteq> [])"
| "truthy (JArr xs) = True"
| "truthy (JObj kvs) = True"
| "truthy JBinary = True"

subsection \<open>Strings\<close>

fun startsWith :: "string \<Rightarrow> string \<Rightarrow> bool" where
  "startsWith s [] = True"
| "startsWith [] (c # cs) = False"
| "startsWith (x # xs) (c # cs) = (x = c \<and> startsWith xs cs)"

text \<open>\<^verbatim>\<open>s.includes(sub)\<close>: \<open>sub\<close> occurs in \<open>s\<close> as a contiguous run.\<close>

fun includes_str :: "string \<Rightarrow> string \<Rightarrow> bool" where
  "includes_str [] sub = (sub = [])"
| "includes_str (x # xs) sub = (startsWith (x # xs) sub \<or> includes_str xs sub)"

definition digit :: "nat \<Rightarrow> char" where
  "digit d = ''0123456789'' ! d"

text \<open>The decimal numeral of a number, as a template literal prints it.\<close>

fun showNat :: "nat \<Rightarrow> string" where
  "showNat n = (if n < 10 then [digit n] else showNat (n div 10) @ [digit (n mod 10)])"

declare showNat.simps [simp del]

section \<open>The liveness prober (hooks/useBotStatus)\<close>

text \<open>
  What \<^verbatim>\<open>fetch\<close> and \<^verbatim>\<open>response.json()\<close> can do: the request fails with an error
  carrying a message, or a response arrives with a status and a body that either parses
  or makes \<^verbatim>\<open>json()\<close> reject with a message. \<^verbatim>\<open>response.ok\<close> is the platform's
  "status in 200..299".
\<close>

datatype fetchOutcome =
    NetworkFailure string
  | Response nat "string + jsval"

definition ok :: "nat \<Rightarrow> bool" where
  "ok status = (200 \<le> status \<and> status \<le> 299)"

record prober =
  botStatus :: "jsval option"
  isLoading :: bool
  lastChecked :: "string option"

text \<open>
  The two messages of the error snapshot are Korean literals in the source
  ("API endpoint not found" and "connection error"); they are named here.
\<close>

definition msgEndpointNotFound :: string where
  "msgEndpointNotFound = ''API endpoint not found''"

definition msgConnectionError :: string where
  "msgConnectionError = ''connection error''"

text \<open>
  The body of the \<^verbatim>\<open>try\<close> block up to the parsed status: \<open>Inl m\<close> is an error with
  message \<open>m\<close> thrown inside it.
\<close>

definition fetchStatus :: "fetchOutcome \<Rightarrow> string + jsval" where
  "fetchStatus r =
     (case r of
        NetworkFailure m \<Rightarrow> Inl m
      | Response status body \<Rightarrow>
          if \<not> ok status then Inl (''HTTP error! status: '' @ showNat status)
          else (case body of Inl m \<Rightarrow> Inl m | Inr v \<Rightarrow> Inr v))"

text \<open>Object spread \<^verbatim>\<open>{...v}\<close> copies the own enumerable properties of \<open>v\<close>.\<close>

fun spread :: "jsval \<Rightarrow> (string \<times> jsval) list" where
  "spread (JObj kvs) = kvs"
| "spread (JArr xs) = zip (map showNat [0..<length xs]) xs"
| "spread (JStr s) = zip (map showNat [0..<length s]) (map (\<lambda>c. JStr [c]) s)"
| "spread v = []"

fun setProp :: "(string \<times> jsval) list \<Rightarrow> string \<Rightarrow> jsval \<Rightarrow> (string \<times> jsval) list" where
  "setProp [] k v = [(k, v)]"
| "setProp ((k', v') # kvs) k v =
     (if k' = k then (k, v) # kvs else (k', v') # setProp kvs k v)"

definition errorStatus :: "string \<Rightarrow> string \<Rightarrow> jsval" where
  "errorStatus m nowIso =
     JObj [(''status'', JStr ''offline''),
           (''message'',
              JStr (if includes_str m ''404'' then msgEndpointNotFound else msgConnectionError)),
           (''isOnline'', JBool False),
           (''lastUpdated'', JStr nowIso)]"

text \<open>
  \<^verbatim>\<open>checkStatus\<close> is asynchronous: its result is how the returned promise settles
  (\<open>Inr v\<close> resolved with \<open>v\<close>, \<open>Inl m\<close> rejected, that is thrown to the caller),
  together with the new state of the hook. \<open>nowIso\<close> is
  \<^verbatim>\<open>new Date().toISOString()\<close>. On the success path \<^verbatim>\<open>response.ok\<close> is true, the
  guard before it having passed. The \<^verbatim>\<open>catch\<close> block reads the message of the error,
  which every error of the \<^verbatim>\<open>try\<close> block has; the \<^verbatim>\<open>finally\<close> block clears the
  loading flag on both paths.
\<close>

definition checkStatus ::
  "string \<Rightarrow> fetchOutcome \<Rightarrow> prober \<Rightarrow> (string + jsval) \<times> prober" where
  "checkStatus nowIso r p =
     (case fetchStatus r of
        Inr status \<Rightarrow>
          (let newStatus =
                 JObj (setProp (setProp (spread status) ''isOnline'' (JBool True))
                         ''lastUpdated'' (JStr nowIso))
           in (Inr newStatus,
               p\<lparr>botStatus := Some newStatus, lastChecked := Some nowIso, isLoading := False\<rparr>))
      | Inl m \<Rightarrow>
          (Inr (errorStatus m nowIso),
           p\<lparr>botStatus := Some (errorStatus m nowIso), isLoading := False\<rparr>))"

section \<open>The message history\<close>

text \<open>\<^verbatim>\<open>setMessages(prev => [message, ...prev].slice(0, 100))\<close>\<close>

definition pushMessage :: "jsval \<Rightarrow> jsval list \<Rightarrow> jsval list" where
  "pushMessage message prev = take 100 (message # prev)"

section \<open>The stream connection (components/WebSocketConnection)\<close>

subsection \<open>State\<close>

datatype readyState = CONNECTING | OPEN | CLOSING | CLOSED

text \<open>
  A transport handle. Its handlers are closures created by one call of
  \<^verbatim>\<open>connectWebSocket\<close>: they read the \<^verbatim>\<open>reconnectAttempts\<close> of the render that
  made that callback, not the current state, so the handle carries that value. What was
  sent over the handle and the code and reason of the \<^verbatim>\<open>close\<close> call that started
  its closing are recorded.
\<close>

record socket =
  readyState :: readyState
  capturedAttempts :: nat
  sent :: "jsval list"
  closeRequest :: "(nat \<times> string) option"

text \<open>A notification, with the values its text is built from.\<close>

datatype toast =
    ToastSuccess
  | ToastInfo "jsval list"
  | ToastWarning "jsval list"
  | ToastError "jsval list"

text \<open>
  The state of the component: the three \<^verbatim>\<open>useState\<close> cells, the four refs, and the
  world the refs point into: the handles ever created (a handle is its index), the pending
  timeouts (id, delay in ms, the \<^verbatim>\<open>reconnectAttempts\<close> its callback closes over), the
  running intervals, the next timer id (ids are positive), the calls of the observer
  \<^verbatim>\<open>onMessage\<close>, the notifications shown and the number of \<^verbatim>\<open>checkStatus()\<close> calls.
\<close>

record component =
  messages :: "jsval list"
  isConnected :: bool
  reconnectAttempts :: nat
  socketRef :: "nat option"
  reconnectTimeoutRef :: "nat option"
  heartbeatIntervalRef :: "nat option"
  lastPongRef :: int
  sockets :: "socket list"
  timeouts :: "(nat \<times> nat \<times> nat) list"
  intervals :: "nat list"
  nextId :: nat
  forwarded :: "jsval list"
  toasts :: "toast list"
  statusChecks :: nat

definition initial :: "int \<Rightarrow> component" where
  "initial now =
     \<lparr>messages = [], isConnected = False, reconnectAttempts = 0, socketRef = None,
      reconnectTimeoutRef = None, heartbeatIntervalRef = None, lastPongRef = now,
      sockets = [], timeouts = [], intervals = [], nextId = 1, forwarded = [],
      toasts = [], statusChecks = 0\<rparr>"

subsection \<open>The platform: handles and timers\<close>

definition hasState :: "component \<Rightarrow> nat \<Rightarrow> readyState \<Rightarrow> bool" where
  "hasState st i r = (i < length (sockets st) \<and> readyState (sockets st ! i) = r)"

definition setReadyState :: "nat \<Rightarrow> readyState \<Rightarrow> component \<Rightarrow> component" where
  "setReadyState i r st = st\<lparr>sockets := (sockets st)[i := (sockets st ! i)\<lparr>readyState := r\<rparr>]\<rparr>"

text \<open>
  \<^verbatim>\<open>socket.close(code, reason)\<close> with a code the platform accepts (1000 and 4000 are):
  nothing on a handle that is closing or closed, otherwise the handle starts closing.
\<close>

definition ws_close :: "nat \<Rightarrow> nat \<Rightarrow> string \<Rightarrow> component \<Rightarrow> component" where
  "ws_close i code reason st =
     (if hasState st i OPEN \<or> hasState st i CONNECTING
      then st\<lparr>sockets := (sockets st)[i := (sockets st ! i)
                \<lparr>readyState := CLOSING, closeRequest := Some (code, reason)\<rparr>]\<rparr>
      else st)"

definition ws_send :: "nat \<Rightarrow> jsval \<Rightarrow> component \<Rightarrow> component" where
  "ws_send i frame st =
     st\<lparr>sockets := (sockets st)[i := (sockets st ! i)\<lparr>sent := sent (sockets st ! i) @ [frame]\<rparr>]\<rparr>"

definition clearTimeout :: "nat \<Rightarrow> component \<Rightarrow> component" where
  "clearTimeout t st = st\<lparr>timeouts := filter (\<lambda>(t', d, a). t' \<noteq> t) (timeouts st)\<rparr>"

definition clearInterval :: "nat \<Rightarrow> component \<Rightarrow> component" where
  "clearInterval h st = st\<lparr>intervals := removeAll h (intervals st)\<rparr>"

definition showToast :: "toast \<Rightarrow> component \<Rightarrow> component" where
  "showToast t st = st\<lparr>toasts := toasts st @ [t]\<rparr>"

subsection \<open>Heartbeat\<close>

text \<open>\<^verbatim>\<open>{ type: 'ping', timestamp: Date.now() }\<close>, which is sent as JSON text.\<close>

definition ping :: "int \<Rightarrow> jsval" where
  "ping now = JObj [(''type'', JStr ''ping''), (''timestamp'', JNum now)]"

text \<open>
  \<^verbatim>\<open>sendHeartbeat\<close> (the same in both versions of the component). \<open>sendThrows\<close> says
  whether \<^verbatim>\<open>socket.send\<close> throws; the \<^verbatim>\<open>catch\<close> only logs.
\<close>

definition sendHeartbeat :: "bool \<Rightarrow> int \<Rightarrow> component \<Rightarrow> component" where
  "sendHeartbeat sendThrows now st =
     (case socketRef st of
        None \<Rightarrow> st
      | Some i \<Rightarrow>
          if hasState st i OPEN then
            (if sendThrows then st
             else ws_send i (ping now) st)
          else st)"

text \<open>\<^verbatim>\<open>checkConnection\<close> of App.js, with its \<^verbatim>\<open>PONG_TIMEOUT_CODE = 4000\<close>.\<close>

definition checkConnection :: "int \<Rightarrow> component \<Rightarrow> component" where
  "checkConnection now st =
     (if now - lastPongRef st > 30000 then
        (case socketRef st of
           None \<Rightarrow> st
         | Some i \<Rightarrow> ws_close i 4000 ''Pong timeout'' st)
      else st)"

text \<open>The callback of the 10 s interval.\<close>

definition heartbeatTick :: "bool \<Rightarrow> int \<Rightarrow> component \<Rightarrow> component" where
  "heartbeatTick sendThrows now st = checkConnection now (sendHeartbeat sendThrows now st)"

subsection \<open>Connecting and reconnecting\<close>

text \<open>
  \<^verbatim>\<open>Math.min(1000 * Math.pow(2, reconnectAttempts), 30000)\<close>; on the floating-point
  numbers of the source the power overflows to infinity, where the minimum is 30000 too.
\<close>

definition backoffDelay :: "nat \<Rightarrow> nat" where
  "backoffDelay attempts = min (1000 * 2 ^ attempts) 30000"

text \<open>
  \<^verbatim>\<open>reconnectTimeoutRef.current = setTimeout(() => { ... }, delay)\<close>, in a closure
  whose \<^verbatim>\<open>reconnectAttempts\<close> is \<open>attempts\<close>.
\<close>

definition scheduleReconnect :: "nat \<Rightarrow> component \<Rightarrow> component" where
  "scheduleReconnect attempts st =
     st\<lparr>timeouts := timeouts st @ [(nextId st, backoffDelay attempts, attempts)],
        reconnectTimeoutRef := Some (nextId st),
        nextId := nextId st + 1\<rparr>"

text \<open>
  \<^verbatim>\<open>connectWebSocket\<close>, as the callback of a render whose \<^verbatim>\<open>reconnectAttempts\<close> is
  \<open>attempts\<close>. \<open>ctorThrows\<close> says whether \<^verbatim>\<open>new WebSocket(wsUrl)\<close> throws; the
  \<^verbatim>\<open>catch\<close> then schedules a retry. The two versions differ in how they build the URL
  only.
\<close>

definition connectWebSocket :: "nat \<Rightarrow> bool \<Rightarrow> component \<Rightarrow> component" where
  "connectWebSocket attempts ctorThrows st =
     (let st1 = (case reconnectTimeoutRef st of
                   None \<Rightarrow> st
                 | Some t \<Rightarrow> (clearTimeout t st)\<lparr>reconnectTimeoutRef := None\<rparr>);
          st2 = (case heartbeatIntervalRef st1 of
                   None \<Rightarrow> st1
                 | Some h \<Rightarrow> (clearInterval h st1)\<lparr>heartbeatIntervalRef := None\<rparr>);
          st3 = (case socketRef st2 of
                   None \<Rightarrow> st2
                 | Some i \<Rightarrow>
                     if hasState st2 i OPEN \<or> hasState st2 i CONNECTING
                     then ws_close i 4000 ''New connection attempt'' st2
                     else st2)
      in if ctorThrows then scheduleReconnect attempts st3
         else st3\<lparr>sockets := sockets st3 @
                      [\<lparr>readyState = CONNECTING, capturedAttempts = attempts, sent = [],
                        closeRequest = None\<rparr>],
                  socketRef := Some (length (sockets st3))\<rparr>)"

text \<open>The callback of the reconnect timer.\<close>

definition fireReconnect :: "nat \<Rightarrow> bool \<Rightarrow> component \<Rightarrow> component" where
  "fireReconnect attempts ctorThrows st =
     connectWebSocket attempts ctorThrows (st\<lparr>reconnectAttempts := reconnectAttempts st + 1\<rparr>)"

text \<open>
  The effect that runs when \<^verbatim>\<open>botStatus?.isOnline\<close> or \<^verbatim>\<open>connectWebSocket\<close>
  changes; it calls the callback of the current render.
\<close>

definition effectOnline :: "bool \<Rightarrow> bool \<Rightarrow> component \<Rightarrow> component" where
  "effectOnline online ctorThrows st =
     (if online \<and>
         (case socketRef st of None \<Rightarrow> True | Some i \<Rightarrow> hasState st i CLOSED)
      then connectWebSocket (reconnectAttempts st) ctorThrows st
      else st)"

subsection \<open>Handlers of a handle\<close>

definition onopen :: "int \<Rightarrow> component \<Rightarrow> component" where
  "onopen now st =
     st\<lparr>isConnected := True,
        reconnectAttempts := 0,
        lastPongRef := now,
        toasts := toasts st @ [ToastSuccess],
        statusChecks := statusChecks st + 1,
        heartbeatIntervalRef := Some (nextId st),
        intervals := intervals st @ [nextId st],
        nextId := nextId st + 1\<rparr>"

text \<open>\<^verbatim>\<open>onclose\<close> of App.js, in a closure whose \<^verbatim>\<open>reconnectAttempts\<close> is \<open>attempts\<close>.\<close>

definition onclose :: "nat \<Rightarrow> nat \<Rightarrow> bool \<Rightarrow> component \<Rightarrow> component" where
  "onclose attempts code wasClean st =
     (let st1 = (if code = 1006 \<or> \<not> wasClean then showToast (ToastError []) st else st);
          st2 = st1\<lparr>isConnected := False\<rparr>;
          st3 = (case heartbeatIntervalRef st2 of
                   None \<Rightarrow> st2
                 | Some h \<Rightarrow> (clearInterval h st2)\<lparr>heartbeatIntervalRef := None\<rparr>)
      in if code \<noteq> 1000 \<and> code \<noteq> 1005 \<and> code \<noteq> 4000
         then scheduleReconnect attempts
                (showToast (ToastWarning [JNum (int (backoffDelay attempts))]) st3)
         else st3)"

text \<open>\<^verbatim>\<open>onclose\<close> of the other version (part_001): no notification of a failed connection.\<close>

definition onclose_part001 :: "nat \<Rightarrow> nat \<Rightarrow> bool \<Rightarrow> component \<Rightarrow> component" where
  "onclose_part001 attempts code wasClean st =
     (let st2 = st\<lparr>isConnected := False\<rparr>;
          st3 = (case heartbeatIntervalRef st2 of
                   None \<Rightarrow> st2
                 | Some h \<Rightarrow> (clearInterval h st2)\<lparr>heartbeatIntervalRef := None\<rparr>)
      in if code \<noteq> 1000 \<and> code \<noteq> 1005 \<and> code \<noteq> 4000
         then scheduleReconnect attempts
                (showToast (ToastWarning [JNum (int (backoffDelay attempts))]) st3)
         else st3)"

text \<open>\<^verbatim>\<open>onerror\<close> of App.js: \<^verbatim>\<open>error.message\<close> or a fixed text is shown.\<close>

definition onerror :: "jsval \<Rightarrow> component \<Rightarrow> component" where
  "onerror m st = showToast (ToastError [if truthy m then m else JStr ''unknown error'']) st"

subsection \<open>Inbound messages\<close>

text \<open>\<^verbatim>\<open>event.data\<close>: the text of a text frame, or a binary frame.\<close>

datatype payload = Text string | Binary

text \<open>
  \<^verbatim>\<open>JSON.parse\<close> is the platform's; the handlers take it as \<open>jsonParse\<close>, where
  \<open>None\<close> is the SyntaxError it throws.

  App.js parses a text frame and falls back to the raw text; any other payload is taken
  as it is.
\<close>

definition decodeTolerant :: "(string \<Rightarrow> jsval option) \<Rightarrow> payload \<Rightarrow> jsval" where
  "decodeTolerant jsonParse d =
     (case d of
        Text s \<Rightarrow> (case jsonParse s of Some v \<Rightarrow> v | None \<Rightarrow> JStr s)
      | Binary \<Rightarrow> JBinary)"

text \<open>
  \<^verbatim>\<open>message && message.type === 'pong' || message.type === 'connection'\<close>: the
  conjunction binds tighter, so the second test reads \<^verbatim>\<open>message.type\<close> of a falsy
  message too, and throws on \<^verbatim>\<open>null\<close>.
\<close>

definition isHeartbeatReply :: "jsval \<Rightarrow> error + bool" where
  "isHeartbeatReply message =
     (if truthy message \<and> getProp message ''type'' = Inr (JStr ''pong'') then Inr True
      else (case getProp message ''type'' of
              Inl e \<Rightarrow> Inl e
            | Inr t \<Rightarrow> Inr (t = JStr ''connection'')))"

text \<open>\<^verbatim>\<open>if (onMessage) onMessage(message)\<close>\<close>

definition notify :: "bool \<Rightarrow> jsval \<Rightarrow> component \<Rightarrow> component" where
  "notify hasObserver message st =
     (if hasObserver then st\<lparr>forwarded := forwarded st @ [message]\<rparr> else st)"

text \<open>\<^verbatim>\<open>v.includes(lit)\<close> on a value: strings and arrays have the method.\<close>

definition jsIncludes :: "jsval \<Rightarrow> string \<Rightarrow> error + bool" where
  "jsIncludes v lit =
     (case v of
        JStr s \<Rightarrow> Inr (includes_str s lit)
      | JArr xs \<Rightarrow> Inr (JStr lit \<in> set xs)
      | _ \<Rightarrow> Inl TypeError)"

text \<open>The three markers of an important log line (a check mark, "entry", "exit"), in UTF-8.\<close>

definition markers :: "string list" where
  "markers =
     [[CHR 0xE2, CHR 0x9C, CHR 0x85],
      [CHR 0xEC, CHR 0xA7, CHR 0x84, CHR 0xEC, CHR 0x9E, CHR 0x85],
      [CHR 0xEC, CHR 0xB2, CHR 0xAD, CHR 0xEC, CHR 0x82, CHR 0xB0]]"

fun includesAny :: "jsval \<Rightarrow> string list \<Rightarrow> error + bool" where
  "includesAny v [] = Inr False"
| "includesAny v (lit # lits) =
     (case jsIncludes v lit of
        Inl e \<Rightarrow> Inl e
      | Inr found \<Rightarrow> if found then Inr True else includesAny v lits)"

text \<open>The notification of a log message, by its level; a throw ends the handler.\<close>

definition logToast :: "jsval \<Rightarrow> component \<Rightarrow> component" where
  "logToast message st =
     (case getProp message ''level'' of
        Inl e \<Rightarrow> st
      | Inr level \<Rightarrow>
          (case getProp message ''message'' of
             Inl e \<Rightarrow> st
           | Inr body \<Rightarrow>
               if level = JStr ''error'' then showToast (ToastError [body]) st
               else if level = JStr ''warning'' then showToast (ToastWarning [body]) st
               else (case includesAny body markers of
                       Inl e \<Rightarrow> st
                     | Inr found \<Rightarrow> if found then showToast (ToastInfo [body]) st else st)))"

text \<open>
  \<^verbatim>\<open>message.data.side\<close>, \<^verbatim>\<open>message.data.amount\<close>, \<^verbatim>\<open>message.data.symbol\<close> of the
  order notification: a TypeError when \<^verbatim>\<open>message.data\<close> is missing.
\<close>

definition orderFields :: "jsval \<Rightarrow> error + jsval list" where
  "orderFields message =
     (case getProp message ''data'' of
        Inl e \<Rightarrow> Inl e
      | Inr d \<Rightarrow>
          (case getProp d ''side'' of
             Inl e \<Rightarrow> Inl e
           | Inr side \<Rightarrow>
               (case getProp d ''amount'' of
                  Inl e \<Rightarrow> Inl e
                | Inr amount \<Rightarrow>
                    (case getProp d ''symbol'' of
                       Inl e \<Rightarrow> Inl e
                     | Inr symbol \<Rightarrow> Inr [side, amount, symbol]))))"

text \<open>
  \<^verbatim>\<open>onmessage\<close> of App.js. An exception anywhere is caught by the outer \<^verbatim>\<open>try\<close>
  and logged; what was done before it stays done.
\<close>

definition onmessage ::
  "(string \<Rightarrow> jsval option) \<Rightarrow> bool \<Rightarrow> int \<Rightarrow> payload \<Rightarrow> component \<Rightarrow> component" where
  "onmessage jsonParse hasObserver now d st =
     (let message = decodeTolerant jsonParse d in
      case isHeartbeatReply message of
        Inl e \<Rightarrow> st
      | Inr True \<Rightarrow> st\<lparr>lastPongRef := now\<rparr>
      | Inr False \<Rightarrow>
          (case getProp message ''type'' of
             Inl e \<Rightarrow> st
           | Inr t \<Rightarrow>
               if t = JStr ''log'' then
                 logToast message
                   (notify hasObserver message
                      (st\<lparr>messages := pushMessage message (messages st)\<rparr>))
               else if t = JStr ''order'' then
                 (case orderFields message of
                    Inl e \<Rightarrow> st
                  | Inr fs \<Rightarrow>
                      (showToast (ToastInfo fs) st)
                        \<lparr>messages := pushMessage message (messages st)\<rparr>)
               else if t = JStr ''error'' then
                 (case getProp message ''data'' of
                    Inl e \<Rightarrow> st
                  | Inr v \<Rightarrow>
                      (showToast (ToastError [v]) st)
                        \<lparr>messages := pushMessage message (messages st)\<rparr>)
               else st))"

text \<open>
  \<^verbatim>\<open>onmessage\<close> of the other version (part_001): \<^verbatim>\<open>JSON.parse(event.data)\<close> with no
  fallback; a payload that is no string is converted to one that is no JSON.
\<close>

definition onmessage_part001 ::
  "(string \<Rightarrow> jsval option) \<Rightarrow> bool \<Rightarrow> int \<Rightarrow> payload \<Rightarrow> component \<Rightarrow> component" where
  "onmessage_part001 jsonParse hasObserver now d st =
     (case d of
        Binary \<Rightarrow> st
      | Text s \<Rightarrow>
          (case jsonParse s of
             None \<Rightarrow> st
           | Some message \<Rightarrow>
               (case getProp message ''type'' of
                  Inl e \<Rightarrow> st
                | Inr t \<Rightarrow>
                    if t = JStr ''pong'' \<or> t = JStr ''connection'' then st\<lparr>lastPongRef := now\<rparr>
                    else
                      (let st1 = notify hasObserver message
                                   (st\<lparr>messages := pushMessage message (messages st)\<rparr>)
                       in if t = JStr ''order'' then
                            (case orderFields message of
                               Inl e \<Rightarrow> st1
                             | Inr fs \<Rightarrow> showToast (ToastInfo fs) st1)
                          else if t = JStr ''error'' then
                            (case getProp message ''data'' of
                               Inl e \<Rightarrow> st1
                             | Inr v \<Rightarrow> showToast (ToastError [v]) st1)
                          else st1))))"

subsection \<open>The component as a transition system\<close>

text \<open>
  What can happen to the mounted component of App.js, one callback at a time: the effect
  runs (with the prober's \<^verbatim>\<open>isOnline\<close>), a connecting handle opens, a frame arrives on
  a handle that is not closed, a handle that is not closed yet closes with a code, a
  handle reports an error, a running interval ticks, a pending timeout fires. The
  booleans say whether the constructor, or \<^verbatim>\<open>send\<close>, throws in that callback; the
  integers are \<^verbatim>\<open>Date.now()\<close>.
\<close>

datatype event =
    EffectRun bool bool
  | SocketOpened nat int
  | SocketMessage nat payload int
  | SocketClosed nat nat bool
  | SocketError nat jsval
  | IntervalTick nat bool int
  | TimeoutFired nat bool

fun step ::
  "(string \<Rightarrow> jsval option) \<Rightarrow> bool \<Rightarrow> event \<Rightarrow> component \<Rightarrow> component option" where
  "step jsonParse hasObserver (EffectRun online ctorThrows) st =
     Some (effectOnline online ctorThrows st)"
| "step jsonParse hasObserver (SocketOpened i now) st =
     (if hasState st i CONNECTING then Some (onopen now (setReadyState i OPEN st)) else None)"
| "step jsonParse hasObserver (SocketMessage i d now) st =
     (if hasState st i OPEN \<or> hasState st i CLOSING
      then Some (onmessage jsonParse hasObserver now d st) else None)"
| "step jsonParse hasObserver (SocketClosed i code wasClean) st =
     (if i < length (sockets st) \<and> \<not> hasState st i CLOSED
      then Some (onclose (capturedAttempts (sockets st ! i)) code wasClean
                   (setReadyState i CLOSED st))
      else None)"
| "step jsonParse hasObserver (SocketError i m) st =
     (if i < length (sockets st) then Some (onerror m st) else None)"
| "step jsonParse hasObserver (IntervalTick h sendThrows now) st =
     (if h \<in> set (intervals st) then Some (heartbeatTick sendThrows now st) else None)"
| "step jsonParse hasObserver (TimeoutFired t ctorThrows) st =
     (case find (\<lambda>(t', d, a). t' = t) (timeouts st) of
        None \<Rightarrow> None
      | Some (t', d, a) \<Rightarrow> Some (fireReconnect a ctorThrows (clearTimeout t st)))"

fun run ::
  "(string \<Rightarrow> jsval option) \<Rightarrow> bool \<Rightarrow> event list \<Rightarrow> component \<Rightarrow> component option" where
  "run jsonParse hasObserver [] st = Some st"
| "run jsonParse hasObserver (e # es) st =
     (case step jsonParse hasObserver e st of
        None \<Rightarrow> None
      | Some st' \<Rightarrow> run jsonParse hasObserver es st')"

inductive reachable :: "(string \<Rightarrow> jsval option) \<Rightarrow> bool \<Rightarrow> component \<Rightarrow> bool"
  for jsonParse :: "string \<Rightarrow> jsval option" and hasObserver :: bool where
  start: "reachable jsonParse hasObserver (initial now)"
| after: "reachable jsonParse hasObserver st \<Longrightarrow> step jsonParse hasObserver e st = Some st'
          \<Longrightarrow> reachable jsonParse hasObserver st'"

subsection \<open>Sample frames\<close>

text \<open>
  A parser that knows a handful of frames by name, each parsed as \<^verbatim>\<open>JSON.parse\<close>
  parses the frame's text, and rejects every other text; the examples below run on it.
\<close>

definition sampleOrder :: jsval where
  "sampleOrder =
     JObj [(''type'', JStr ''order''),
           (''data'', JObj [(''side'', JStr ''buy''), (''amount'', JNum 1),
                            (''symbol'', JStr ''BTC'')])]"

definition sampleLog :: jsval where
  "sampleLog =
     JObj [(''type'', JStr ''log''), (''level'', JStr ''info''),
           (''message'', JStr ''started'')]"

definition samplePosition :: jsval where
  "samplePosition = JObj [(''type'', JStr ''position_update''), (''data'', JArr [])]"

definition sampleParse :: "string \<Rightarrow> jsval option" where
  "sampleParse s =
     map_of
       [(''order-frame'', sampleOrder),
        (''log-frame'', sampleLog),
        (''pong-frame'', JObj [(''type'', JStr ''pong'')]),
        (''position-frame'', samplePosition),
        (''null-frame'', JNull)] s"

subsection \<open>Failed probes\<close>

text \<open>A probe that does not succeed: the request fails, or the response is not ok.\<close>

definition nonSuccess :: "fetchOutcome \<Rightarrow> bool" where
  "nonSuccess r = (case r of NetworkFailure m \<Rightarrow> True | Response status body \<Rightarrow> \<not> ok status)"

subsection \<open>Observations\<close>

text \<open>
  The connection state of the component: the ready states and close requests of its
  handles, which handle is current, the connected flag, the retry counter, and the timers.
\<close>

definition connection ::
  "component \<Rightarrow> readyState list \<times> (nat \<times> string) option list \<times> nat option \<times> bool \<times> nat \<times>
     nat option \<times> nat option \<times> (nat \<times> nat \<times> nat) list \<times> nat list" where
  "connection st =
     (map readyState (sockets st), map closeRequest (sockets st), socketRef st,
      isConnected st, reconnectAttempts st, reconnectTimeoutRef st, heartbeatIntervalRef st,
      timeouts st, intervals st)"

text \<open>The state after the first connection has opened at time 0.\<close>

definition sampleOpen :: component where
  "sampleOpen = onopen 0 (setReadyState 0 OPEN (effectOnline True False (initial 0)))"

subsection \<open>Close codes and pending reconnections\<close>

text \<open>
  The close codes after which nothing is retried, a close event with such a code, and what
  is pending of reconnections: the timeouts and the timer the component remembers.
\<close>

definition nonRetry :: "nat \<Rightarrow> bool" where
  "nonRetry code = (code = 1000 \<or> code = 1005 \<or> code = 4000)"

definition nonRetryClose :: "event \<Rightarrow> bool" where
  "nonRetryClose e = (case e of SocketClosed i code wasClean \<Rightarrow> nonRetry code | _ \<Rightarrow> False)"

definition pendingReconnect :: "component \<Rightarrow> (nat \<times> nat \<times> nat) list \<times> nat option" where
  "pendingReconnect st = (timeouts st, reconnectTimeoutRef st)"

text \<open>What the observer is called with on a message: nothing when none is registered.\<close>

definition delivered :: "bool \<Rightarrow> jsval \<Rightarrow> jsval list" where
  "delivered hasObserver message = (if hasObserver then [message] else [])"

subsection \<open>Well-formed states\<close>

text \<open>
  The component is idle when it has no handle or its handle is closed. A state is
  well-formed when the current handle exists, every other handle is closed, a pending
  timeout is the only one, remembered by the component and pending only while the component
  is idle, and a running interval is the only one, remembered by the component and running
  only while the current handle is open or closing.
\<close>

definition idle :: "component \<Rightarrow> bool" where
  "idle st = (\<forall>i. socketRef st = Some i \<longrightarrow> hasState st i CLOSED)"

definition wellFormed :: "component \<Rightarrow> bool" where
  "wellFormed st =
     ((\<forall>i. socketRef st = Some i \<longrightarrow> i < length (sockets st)) \<and>
      (\<forall>j < length (sockets st). socketRef st \<noteq> Some j \<longrightarrow> hasState st j CLOSED) \<and>
      (timeouts st = [] \<or>
         (\<exists>t d a. timeouts st = [(t, d, a)] \<and> reconnectTimeoutRef st = Some t \<and> idle st)) \<and>
      (intervals st = [] \<or>
         (\<exists>h i. intervals st = [h] \<and> heartbeatIntervalRef st = Some h \<and>
                socketRef st = Some i \<and> (hasState st i OPEN \<or> hasState st i CLOSING))))"

section \<open>Properties\<close>

subsection \<open>The message history\<close>

lemma pushMessage_Cons: "pushMessage m prev = m # take 99 prev"
  by (simp add: pushMessage_def take_Cons')

lemma length_pushMessage: "length (pushMessage m prev) \<le> 100"
  by (simp add: pushMessage_def)

lemma messages_showToast [simp]: "messages (showToast t st) = messages st"
  by (simp add: showToast_def)

lemma messages_notify [simp]: "messages (notify b m st) = messages st"
  by (simp add: notify_def)

lemma messages_logToast [simp]: "messages (logToast m st) = messages st"
  by (simp add: logToast_def split: sum.splits)

lemma messages_onmessage:
  "messages (onmessage p ob now d st) = messages st \<or>
   (\<exists>m. messages (onmessage p ob now d st) = pushMessage m (messages st))"
  by (auto simp: onmessage_def Let_def split: sum.splits bool.splits)

lemma messages_onmessage_part001:
  "messages (onmessage_part001 p ob now d st) = messages st \<or>
   (\<exists>m. messages (onmessage_part001 p ob now d st) = pushMessage m (messages st))"
  by (auto simp: onmessage_part001_def Let_def split: sum.splits payload.splits option.splits)

lemma messages_ws_close [simp]: "messages (ws_close i c r st) = messages st"
  by (simp add: ws_close_def)

lemma messages_connectWebSocket [simp]: "messages (connectWebSocket a c st) = messages st"
  by (simp add: connectWebSocket_def Let_def scheduleReconnect_def clearTimeout_def
      clearInterval_def split: option.splits)

lemma messages_onclose [simp]: "messages (onclose a c w st) = messages st"
  by (simp add: onclose_def Let_def scheduleReconnect_def clearInterval_def showToast_def
      split: option.splits)

lemma messages_heartbeatTick [simp]: "messages (heartbeatTick f now st) = messages st"
  by (simp add: heartbeatTick_def checkConnection_def sendHeartbeat_def ws_send_def
      split: option.splits)

lemma messages_step:
  "step p ob e st = Some st' \<Longrightarrow>
   messages st' = messages st \<or> (\<exists>m. messages st' = pushMessage m (messages st))"
proof (cases e)
  case (SocketMessage i d now)
  assume "step p ob e st = Some st'"
  with SocketMessage have "st' = onmessage p ob now d st" by (simp split: if_splits)
  then show ?thesis using messages_onmessage by blast
qed (auto simp: effectOnline_def onopen_def setReadyState_def onerror_def fireReconnect_def
    clearTimeout_def split: if_splits option.splits prod.splits)

lemma reachable_history_bounded: "reachable p ob st \<Longrightarrow> length (messages st) \<le> 100"
proof (induction rule: reachable.induct)
  case (start now)
  show ?case by (simp add: initial_def)
next
  case (after st e st')
  from messages_step [OF after.hyps(2)] after.IH show ?case
    by (auto simp: length_pushMessage)
qed

lemma run_reachable:
  "reachable p ob st \<Longrightarrow> run p ob es st = Some st' \<Longrightarrow> reachable p ob st'"
proof (induction es arbitrary: st)
  case Nil
  then show ?case by simp
next
  case (Cons e es)
  then show ?case
    by (auto split: option.splits intro: reachable.after)
qed

text \<open>
  C7. The message history never holds more than 100 entries, in any state the component
  can reach and after the message handler of the other version too, and it is
  newest-first: an insertion puts the new message in front of the first 99 entries, so
  that a history of 100 entries loses its last, oldest one.
\<close>

theorem history_bounded_newest_first:
  assumes "reachable jsonParse hasObserver st"
  shows "length (messages st) \<le> 100 \<and>
         (\<forall>now d. length (messages (onmessage_part001 jsonParse hasObserver now d st)) \<le> 100) \<and>
         (\<forall>m prev. pushMessage m prev = m # take 99 prev \<and>
                    length (pushMessage m prev) \<le> 100 \<and>
                    (length prev < 100 \<longrightarrow> pushMessage m prev = m # prev) \<and>
                    (length prev = 100 \<longrightarrow> pushMessage m prev = m # butlast prev))"
proof -
  have "pushMessage m prev = m # butlast prev" if "length prev = 100"
    for m and prev :: "jsval list"
    using that by (simp add: pushMessage_Cons butlast_conv_take)
  moreover have "pushMessage m prev = m # prev" if "length prev < 100"
    for m and prev :: "jsval list"
    using that by (simp add: pushMessage_Cons)
  moreover have "length (messages (onmessage_part001 jsonParse hasObserver now d st)) \<le> 100"
    for now d
    using messages_onmessage_part001 [of jsonParse hasObserver now d st]
      reachable_history_bounded [OF assms]
    by (auto simp: length_pushMessage)
  ultimately show ?thesis
    using reachable_history_bounded [OF assms] pushMessage_Cons length_pushMessage by blast
qed

lemma sample_run:
  "run sampleParse True
     [EffectRun True False, SocketOpened 0 0, SocketMessage 0 (Text ''order-frame'') 5]
     (initial 0) =
   Some ((onmessage sampleParse True 5 (Text ''order-frame'')
           (onopen 0 (setReadyState 0 OPEN (effectOnline True False (initial 0))))))"
  by (simp add: effectOnline_def initial_def connectWebSocket_def hasState_def
      setReadyState_def onopen_def)

theorem history_bounded_newest_first_witness:
  "reachable sampleParse True
     (onmessage sampleParse True 5 (Text ''order-frame'')
        (onopen 0 (setReadyState 0 OPEN (effectOnline True False (initial 0))))) \<and>
   length (messages (onmessage sampleParse True 5 (Text ''order-frame'')
        (onopen 0 (setReadyState 0 OPEN (effectOnline True False (initial 0)))))) = 1 \<and>
   pushMessage (JNum 1) (replicate 100 JNull) = JNum 1 # replicate 99 JNull \<and>
   pushMessage (JNum 1) [JNum 2] = [JNum 1, JNum 2]"
proof -
  let ?st = "onmessage sampleParse True 5 (Text ''order-frame'')
        (onopen 0 (setReadyState 0 OPEN (effectOnline True False (initial 0))))"
  have r: "reachable sampleParse True ?st"
    using run_reachable [OF reachable.start sample_run] .
  have l: "length (messages ?st) = 1"
    by (simp add: onmessage_def decodeTolerant_def sampleParse_def sampleOrder_def
        isHeartbeatReply_def orderFields_def pushMessage_def showToast_def effectOnline_def
        initial_def connectWebSocket_def hasState_def setReadyState_def onopen_def)
  have b: "butlast (replicate 100 JNull) = replicate 99 JNull"
    by (simp add: butlast_conv_take)
  note h = history_bounded_newest_first [OF r, THEN conjunct2, THEN conjunct2, rule_format]
  have "pushMessage (JNum 1) (replicate 100 JNull) = JNum 1 # butlast (replicate 100 JNull)"
    by (rule h [THEN conjunct2, THEN conjunct2, THEN conjunct2, THEN mp]) simp
  moreover have "pushMessage (JNum 1) [JNum 2] = JNum 1 # [JNum 2]"
    by (rule h [THEN conjunct2, THEN conjunct2, THEN conjunct1, THEN mp]) simp
  ultimately have "pushMessage (JNum 1) (replicate 100 JNull) = JNum 1 # replicate 99 JNull"
    and "pushMessage (JNum 1) [JNum 2] = [JNum 1, JNum 2]"
    using b by simp_all
  with r l show ?thesis by simp
qed

subsection \<open>The prober\<close>

lemma showNat_404: "showNat 404 = ''404''"
  by (simp add: showNat.simps digit_def)

lemma includes_http_404: "includes_str (''HTTP error! status: '' @ showNat 404) ''404''"
  by (simp add: showNat_404)

text \<open>
  C9. When the request fails or the response is not ok, \<^verbatim>\<open>checkStatus\<close> does not
  throw: its promise resolves to a snapshot, which it also publishes, with status
  "offline" and \<^verbatim>\<open>isOnline\<close> false. The message of the snapshot is "endpoint not
  found" when the message of the error contains 404, as it does for a response with status
  404, and "connection error" otherwise.
\<close>

theorem checkStatus_failure_offline:
  assumes "nonSuccess r"
  shows "\<exists>m. fetchStatus r = Inl m \<and>
             fst (checkStatus nowIso r p) = Inr (errorStatus m nowIso) \<and>
             botStatus (snd (checkStatus nowIso r p)) = Some (errorStatus m nowIso) \<and>
             getProp (errorStatus m nowIso) ''status'' = Inr (JStr ''offline'') \<and>
             getProp (errorStatus m nowIso) ''isOnline'' = Inr (JBool False) \<and>
             getProp (errorStatus m nowIso) ''message'' =
               Inr (JStr (if includes_str m ''404'' then msgEndpointNotFound
                          else msgConnectionError)) \<and>
             (\<forall>body. r = Response 404 body \<longrightarrow> includes_str m ''404'')"
proof -
  from assms obtain m where m: "fetchStatus r = Inl m"
    by (auto simp: nonSuccess_def fetchStatus_def split: fetchOutcome.splits)
  have "\<forall>body. r = Response 404 body \<longrightarrow> includes_str m ''404''"
    using m includes_http_404 by (auto simp: fetchStatus_def ok_def)
  with m show ?thesis
    by (intro exI [of _ m]) (simp add: checkStatus_def errorStatus_def)
qed

theorem checkStatus_failure_offline_witness:
  "nonSuccess (Response 404 (Inl ''no body'')) \<and>
   fst (checkStatus ''t'' (Response 404 (Inl ''no body''))
          \<lparr>botStatus = None, isLoading = True, lastChecked = None\<rparr>) =
     Inr (JObj [(''status'', JStr ''offline''), (''message'', JStr msgEndpointNotFound),
                (''isOnline'', JBool False), (''lastUpdated'', JStr ''t'')]) \<and>
   nonSuccess (NetworkFailure ''Failed to fetch'') \<and>
   fst (checkStatus ''t'' (NetworkFailure ''Failed to fetch'')
          \<lparr>botStatus = None, isLoading = True, lastChecked = None\<rparr>) =
     Inr (JObj [(''status'', JStr ''offline''), (''message'', JStr msgConnectionError),
                (''isOnline'', JBool False), (''lastUpdated'', JStr ''t'')])"
proof -
  let ?p = "\<lparr>botStatus = None, isLoading = True, lastChecked = None\<rparr>"
  have a: "nonSuccess (Response 404 (Inl ''no body''))"
    by (simp add: nonSuccess_def ok_def)
  have b: "nonSuccess (NetworkFailure ''Failed to fetch'')"
    by (simp add: nonSuccess_def)
  from checkStatus_failure_offline [OF a, of "''t''" ?p]
  have "fst (checkStatus ''t'' (Response 404 (Inl ''no body'')) ?p) =
     Inr (JObj [(''status'', JStr ''offline''), (''message'', JStr msgEndpointNotFound),
                (''isOnline'', JBool False), (''lastUpdated'', JStr ''t'')])"
    by (auto simp: errorStatus_def)
  moreover from checkStatus_failure_offline [OF b, of "''t''" ?p]
  have "fst (checkStatus ''t'' (NetworkFailure ''Failed to fetch'') ?p) =
     Inr (JObj [(''status'', JStr ''offline''), (''message'', JStr msgConnectionError),
                (''isOnline'', JBool False), (''lastUpdated'', JStr ''t'')])"
    by (auto simp: errorStatus_def fetchStatus_def)
  ultimately show ?thesis using a b by simp
qed

subsection \<open>Heartbeat\<close>

lemma map_update_same [simp]: "(map f xs)[i := f (xs ! i)] = map f xs"
  by (induction xs arbitrary: i) (auto split: nat.splits)

lemma connection_ws_send: "connection (ws_send i frame st) = connection st"
  by (simp add: connection_def ws_send_def map_update)

lemma lastPongRef_ws_send [simp]: "lastPongRef (ws_send i frame st) = lastPongRef st"
  by (simp add: ws_send_def)

lemma sendHeartbeat_cases:
  "sendHeartbeat sendThrows now st =
     (if \<not> sendThrows \<and> (\<exists>i. socketRef st = Some i \<and> hasState st i OPEN)
      then ws_send (the (socketRef st)) (ping now) st else st)"
  by (auto simp: sendHeartbeat_def split: option.splits)

lemma sampleOpen_eq:
  "sampleOpen =
     \<lparr>messages = [], isConnected = True, reconnectAttempts = 0, socketRef = Some 0,
      reconnectTimeoutRef = None, heartbeatIntervalRef = Some 1, lastPongRef = 0,
      sockets = [\<lparr>readyState = OPEN, capturedAttempts = 0, sent = [], closeRequest = None\<rparr>],
      timeouts = [], intervals = [1], nextId = 2, forwarded = [],
      toasts = [ToastSuccess], statusChecks = 1\<rparr>"
  by (simp add: sampleOpen_def effectOnline_def initial_def connectWebSocket_def hasState_def
      setReadyState_def onopen_def)

lemma sampleOpen_reachable: "reachable p ob sampleOpen"
proof -
  have "run p ob [EffectRun True False, SocketOpened 0 0] (initial 0) = Some sampleOpen"
    by (simp add: sampleOpen_def effectOnline_def initial_def connectWebSocket_def
        hasState_def)
  from run_reachable [OF reachable.start this] show ?thesis .
qed

text \<open>
  C10. \<^verbatim>\<open>sendHeartbeat\<close> changes something only when the current handle exists and
  is open and the send does not throw; what it does then is to send one ping over that
  handle. When the send throws, the state is unchanged, so that the tick does what
  \<^verbatim>\<open>checkConnection\<close> alone does. In no case does it touch the connection state or
  the time of the last pong.
\<close>

theorem heartbeat_ping_only_when_open:
  "(sendHeartbeat sendThrows now st \<noteq> st \<longrightarrow>
      \<not> sendThrows \<and> (\<exists>i. socketRef st = Some i \<and> hasState st i OPEN)) \<and>
   (\<forall>i. socketRef st = Some i \<and> hasState st i OPEN \<and> \<not> sendThrows \<longrightarrow>
      sendHeartbeat sendThrows now st = ws_send i (ping now) st) \<and>
   sendHeartbeat True now st = st \<and>
   connection (sendHeartbeat sendThrows now st) = connection st \<and>
   lastPongRef (sendHeartbeat sendThrows now st) = lastPongRef st \<and>
   heartbeatTick True now st = checkConnection now st"
  by (auto simp: sendHeartbeat_cases connection_ws_send heartbeatTick_def)

theorem heartbeat_ping_only_when_open_witness:
  "sendHeartbeat False 7 sampleOpen \<noteq> sampleOpen \<and>
   socketRef sampleOpen = Some 0 \<and> hasState sampleOpen 0 OPEN \<and>
   sendHeartbeat False 7 sampleOpen = ws_send 0 (ping 7) sampleOpen \<and>
   sendHeartbeat True 7 sampleOpen = sampleOpen"
proof -
  have a: "socketRef sampleOpen = Some 0 \<and> hasState sampleOpen 0 OPEN"
    by (simp add: sampleOpen_eq hasState_def)
  have b: "sendHeartbeat False 7 sampleOpen \<noteq> sampleOpen"
  proof
    assume "sendHeartbeat False 7 sampleOpen = sampleOpen"
    then have "sockets (sendHeartbeat False 7 sampleOpen) = sockets sampleOpen" by simp
    then show False
      by (simp add: sampleOpen_eq sendHeartbeat_def hasState_def ws_send_def)
  qed
  from heartbeat_ping_only_when_open [of False 7 sampleOpen] a b show ?thesis by simp
qed

subsection \<open>Heartbeat replies\<close>

lemma tagged_truthy: "getProp message ''type'' = Inr (JStr (c # cs)) \<Longrightarrow> truthy message"
  by (cases message) (auto split: if_splits)

text \<open>
  C8. A message whose \<^verbatim>\<open>type\<close> is "pong" or "connection" sets the time of the last
  pong to the current time and ends the handler, in both versions: nothing else of the
  state changes, so the message is neither added to the history nor given to the observer.
\<close>

theorem heartbeat_reply_terminal:
  assumes "t = ''pong'' \<or> t = ''connection''"
  shows "(getProp (decodeTolerant jsonParse d) ''type'' = Inr (JStr t) \<longrightarrow>
            onmessage jsonParse hasObserver now d st = st\<lparr>lastPongRef := now\<rparr>) \<and>
         (jsonParse s = Some message \<and> getProp message ''type'' = Inr (JStr t) \<longrightarrow>
            onmessage_part001 jsonParse hasObserver now (Text s) st = st\<lparr>lastPongRef := now\<rparr>) \<and>
         messages (st\<lparr>lastPongRef := now\<rparr>) = messages st \<and>
         forwarded (st\<lparr>lastPongRef := now\<rparr>) = forwarded st \<and>
         lastPongRef (st\<lparr>lastPongRef := now\<rparr>) = now"
proof -
  have "onmessage jsonParse hasObserver now d st = st\<lparr>lastPongRef := now\<rparr>"
    if h: "getProp (decodeTolerant jsonParse d) ''type'' = Inr (JStr t)"
  proof -
    from assms h have "truthy (decodeTolerant jsonParse d)"
      by (auto dest: tagged_truthy)
    with assms h have "isHeartbeatReply (decodeTolerant jsonParse d) = Inr True"
      by (auto simp: isHeartbeatReply_def)
    then show ?thesis by (simp add: onmessage_def)
  qed
  moreover have "onmessage_part001 jsonParse hasObserver now (Text s) st = st\<lparr>lastPongRef := now\<rparr>"
    if "jsonParse s = Some message" and "getProp message ''type'' = Inr (JStr t)"
    using that assms by (auto simp: onmessage_part001_def)
  ultimately show ?thesis by simp
qed

theorem heartbeat_reply_terminal_witness:
  "onmessage sampleParse True 9 (Text ''pong-frame'') sampleOpen = sampleOpen\<lparr>lastPongRef := 9\<rparr> \<and>
   onmessage_part001 sampleParse True 9 (Text ''pong-frame'') sampleOpen =
     sampleOpen\<lparr>lastPongRef := 9\<rparr>"
proof -
  have a: "sampleParse ''pong-frame'' = Some (JObj [(''type'', JStr ''pong'')])"
    by (simp add: sampleParse_def)
  have b: "getProp (decodeTolerant sampleParse (Text ''pong-frame'')) ''type'' = Inr (JStr ''pong'')"
    by (simp add: decodeTolerant_def a)
  have c: "getProp (JObj [(''type'', JStr ''pong'')]) ''type'' = Inr (JStr ''pong'')"
    by simp
  from heartbeat_reply_terminal [of "''pong''" sampleParse "Text ''pong-frame''" True 9 sampleOpen
      "''pong-frame''" "JObj [(''type'', JStr ''pong'')]"] a b c
  show ?thesis by simp
qed

subsection \<open>Close codes that are not retried\<close>

lemma pendingReconnect_onclose:
  "nonRetry code \<Longrightarrow> pendingReconnect (onclose a code w st) = pendingReconnect st"
  by (auto simp: nonRetry_def pendingReconnect_def onclose_def Let_def clearInterval_def
      showToast_def split: option.splits)

lemma pendingReconnect_onclose_part001:
  "nonRetry code \<Longrightarrow> pendingReconnect (onclose_part001 a code w st) = pendingReconnect st"
  by (auto simp: nonRetry_def pendingReconnect_def onclose_part001_def Let_def clearInterval_def
      split: option.splits)

lemma pendingReconnect_setReadyState [simp]:
  "pendingReconnect (setReadyState i r st) = pendingReconnect st"
  by (simp add: pendingReconnect_def setReadyState_def)

lemma pendingReconnect_step:
  "nonRetryClose e \<Longrightarrow> step p ob e st = Some st' \<Longrightarrow> pendingReconnect st' = pendingReconnect st"
  by (cases e) (auto simp: nonRetryClose_def pendingReconnect_onclose split: if_splits)

lemma pendingReconnect_run:
  "list_all nonRetryClose es \<Longrightarrow> run p ob es st = Some st' \<Longrightarrow>
   pendingReconnect st' = pendingReconnect st"
proof (induction es arbitrary: st)
  case Nil
  then show ?case by simp
next
  case (Cons e es)
  from Cons.prems obtain st1 where s: "step p ob e st = Some st1" and r: "run p ob es st1 = Some st'"
    by (auto split: option.splits)
  from Cons.prems have "nonRetryClose e" and "list_all nonRetryClose es" by simp_all
  with s r Cons.IH pendingReconnect_step show ?case by metis
qed

text \<open>
  C2. A close event with code 1000, 1005 or 4000 schedules no reconnection: the handler, in
  both versions, leaves the pending timeouts and the remembered timer as they were, and so
  does any sequence of such close events of the component.
\<close>

theorem no_reconnect_after_nonretry_close:
  "(nonRetry code \<longrightarrow>
      pendingReconnect (onclose attempts code wasClean st) = pendingReconnect st \<and>
      pendingReconnect (onclose_part001 attempts code wasClean st) = pendingReconnect st) \<and>
   (list_all nonRetryClose es \<and> run jsonParse hasObserver es st = Some st' \<longrightarrow>
      pendingReconnect st' = pendingReconnect st)"
  using pendingReconnect_onclose pendingReconnect_onclose_part001 pendingReconnect_run
  by blast

theorem no_reconnect_after_nonretry_close_witness:
  "nonRetry 4000 \<and> pendingReconnect (onclose 0 4000 True sampleOpen) = ([], None) \<and>
   pendingReconnect (onclose_part001 0 1005 False sampleOpen) = ([], None) \<and>
   list_all nonRetryClose [SocketClosed 0 1000 True] \<and>
   run sampleParse True [SocketClosed 0 1000 True] sampleOpen =
     Some (onclose 0 1000 True (setReadyState 0 CLOSED sampleOpen)) \<and>
   pendingReconnect (onclose 0 1000 True (setReadyState 0 CLOSED sampleOpen)) = ([], None)"
proof -
  have a: "nonRetry 4000" "nonRetry 1005" by (simp_all add: nonRetry_def)
  have b: "list_all nonRetryClose [SocketClosed 0 1000 True]"
    by (simp add: nonRetryClose_def nonRetry_def)
  have c: "run sampleParse True [SocketClosed 0 1000 True] sampleOpen =
     Some (onclose 0 1000 True (setReadyState 0 CLOSED sampleOpen))"
    by (simp add: sampleOpen_eq hasState_def)
  have d: "pendingReconnect sampleOpen = ([], None)"
    by (simp add: pendingReconnect_def sampleOpen_eq)
  from no_reconnect_after_nonretry_close [of 4000 0 True sampleOpen "[SocketClosed 0 1000 True]"
      sampleParse True "onclose 0 1000 True (setReadyState 0 CLOSED sampleOpen)"]
    no_reconnect_after_nonretry_close [of 1005 0 False sampleOpen "[]" sampleParse True sampleOpen]
    a b c d
  show ?thesis by simp
qed

subsection \<open>Inbound messages\<close>

text \<open>
  C5, as the claim states it, fails: a text that does not parse is not given to the
  observer.
\<close>

theorem unparsable_payload_not_forwarded:
  "sampleParse ''hello'' = None \<and>
   decodeTolerant sampleParse (Text ''hello'') = JStr ''hello'' \<and>
   forwarded (onmessage sampleParse True 6 (Text ''hello'') sampleOpen) = [] \<and>
   forwarded (onmessage sampleParse True 6 (Text ''hello'') sampleOpen) \<noteq> [JStr ''hello'']"
  by (simp add: sampleParse_def onmessage_def decodeTolerant_def isHeartbeatReply_def
      sampleOpen_eq)

text \<open>
  C5, amended. A text frame that does not parse changes nothing, in either version: App.js
  keeps the text as the message, which has no \<^verbatim>\<open>type\<close> and falls through every
  branch; the other version catches the error of the parser. Nothing is given to the
  observer or added to the history, no handle changes its ready state and no close is
  requested.
\<close>

theorem unparsable_payload_recovered:
  assumes "jsonParse s = None"
  shows "onmessage jsonParse hasObserver now (Text s) st = st \<and>
         onmessage_part001 jsonParse hasObserver now (Text s) st = st"
  using assms
  by (simp add: onmessage_def decodeTolerant_def isHeartbeatReply_def onmessage_part001_def)

theorem unparsable_payload_recovered_witness:
  "sampleParse ''hello'' = None \<and>
   onmessage sampleParse True 6 (Text ''hello'') sampleOpen = sampleOpen \<and>
   onmessage_part001 sampleParse True 6 (Text ''hello'') sampleOpen = sampleOpen"
proof -
  have a: "sampleParse ''hello'' = None" by (simp add: sampleParse_def)
  from unparsable_payload_recovered [of sampleParse "''hello''" True 6 sampleOpen] a
  show ?thesis by simp
qed

lemma connection_showToast [simp]: "connection (showToast t st) = connection st"
  by (simp add: connection_def showToast_def)

lemma connection_notify [simp]: "connection (notify b m st) = connection st"
  by (simp add: connection_def notify_def)

lemma connection_logToast [simp]: "connection (logToast m st) = connection st"
  by (simp add: logToast_def split: sum.splits)

lemma connection_messages_update [simp]: "connection (st\<lparr>messages := ms\<rparr>) = connection st"
  by (simp add: connection_def)

lemma lastPongRef_showToast [simp]: "lastPongRef (showToast t st) = lastPongRef st"
  by (simp add: showToast_def)

lemma lastPongRef_notify [simp]: "lastPongRef (notify b m st) = lastPongRef st"
  by (simp add: notify_def)

lemma lastPongRef_logToast [simp]: "lastPongRef (logToast m st) = lastPongRef st"
  by (simp add: logToast_def split: sum.splits)

lemma forwarded_showToast [simp]: "forwarded (showToast t st) = forwarded st"
  by (simp add: showToast_def)

lemma forwarded_logToast [simp]: "forwarded (logToast m st) = forwarded st"
  by (simp add: logToast_def split: sum.splits)

lemma forwarded_notify [simp]:
  "forwarded (notify b m st) = forwarded st @ delivered b m"
  by (simp add: notify_def delivered_def)

lemma tagged_not_reply:
  "getProp message ''type'' = Inr (JStr t) \<Longrightarrow> t \<noteq> ''pong'' \<Longrightarrow> t \<noteq> ''connection'' \<Longrightarrow>
   isHeartbeatReply message = Inr False"
  by (simp add: isHeartbeatReply_def)

lemma readable_all: "getProp message k = Inr x \<Longrightarrow> \<exists>v. getProp message k' = Inr v"
  by (cases message) auto

lemma onmessage_tagged:
  assumes "getProp (decodeTolerant jsonParse d) ''type'' = Inr (JStr t)"
    and "t \<noteq> ''pong''" and "t \<noteq> ''connection''"
  shows "onmessage jsonParse hasObserver now d st =
     (let message = decodeTolerant jsonParse d in
      if t = ''log'' then
        logToast message
          (notify hasObserver message (st\<lparr>messages := pushMessage message (messages st)\<rparr>))
      else if t = ''order'' then
        (case orderFields message of
           Inl e \<Rightarrow> st
         | Inr fs \<Rightarrow> (showToast (ToastInfo fs) st)\<lparr>messages := pushMessage message (messages st)\<rparr>)
      else if t = ''error'' then
        (case getProp message ''data'' of
           Inl e \<Rightarrow> st
         | Inr v \<Rightarrow> (showToast (ToastError [v]) st)\<lparr>messages := pushMessage message (messages st)\<rparr>)
      else st)"
  using assms tagged_not_reply [OF assms]
  by (simp add: onmessage_def Let_def)

lemma sampleOrder_fields:
  "orderFields sampleOrder = Inr [JStr ''buy'', JNum 1, JStr ''BTC'']"
  by (simp add: orderFields_def sampleOrder_def)

text \<open>
  C4, as the claim states it, fails on App.js: an order message is added to the history
  but not given to the observer, and a message of a type the handler does not know is
  dropped.
\<close>

theorem order_message_not_forwarded:
  "hasState sampleOpen 0 OPEN \<and>
   decodeTolerant sampleParse (Text ''order-frame'') = sampleOrder \<and>
   forwarded (onmessage sampleParse True 5 (Text ''order-frame'') sampleOpen) = [] \<and>
   decodeTolerant sampleParse (Text ''position-frame'') = samplePosition \<and>
   forwarded (onmessage sampleParse True 5 (Text ''position-frame'') sampleOpen) = [] \<and>
   messages (onmessage sampleParse True 5 (Text ''position-frame'') sampleOpen) = []"
  by (simp add: sampleOpen_eq hasState_def onmessage_def decodeTolerant_def sampleParse_def
      sampleOrder_def samplePosition_def isHeartbeatReply_def orderFields_def showToast_def)

text \<open>
  C4, amended. For a message with a \<^verbatim>\<open>type\<close> other than "pong" and "connection", no
  version changes the connection state or the time of the last pong. App.js handles it by
  type: a log message is put in front of the history and given to the observer once; an
  order message is put in front of the history when its \<^verbatim>\<open>data\<close> can be read, and
  an error message always, neither being given to the observer; any other type changes
  nothing. The other version puts every such message in front of the history and gives it
  to the observer once.
\<close>

theorem accepted_message_by_type:
  assumes "getProp message ''type'' = Inr (JStr t)" and "t \<noteq> ''pong''" and "t \<noteq> ''connection''"
  shows "(decodeTolerant jsonParse d = message \<longrightarrow>
            connection (onmessage jsonParse hasObserver now d st) = connection st \<and>
            lastPongRef (onmessage jsonParse hasObserver now d st) = lastPongRef st \<and>
            (t = ''log'' \<longrightarrow>
               messages (onmessage jsonParse hasObserver now d st) =
                 pushMessage message (messages st) \<and>
               forwarded (onmessage jsonParse hasObserver now d st) =
                 forwarded st @ delivered hasObserver message) \<and>
            (t = ''order'' \<longrightarrow>
               forwarded (onmessage jsonParse hasObserver now d st) = forwarded st \<and>
               messages (onmessage jsonParse hasObserver now d st) =
                 (case orderFields message of
                    Inl e \<Rightarrow> messages st
                  | Inr fs \<Rightarrow> pushMessage message (messages st))) \<and>
            (t = ''error'' \<longrightarrow>
               forwarded (onmessage jsonParse hasObserver now d st) = forwarded st \<and>
               messages (onmessage jsonParse hasObserver now d st) =
                 pushMessage message (messages st)) \<and>
            (t \<noteq> ''log'' \<and> t \<noteq> ''order'' \<and> t \<noteq> ''error'' \<longrightarrow>
               onmessage jsonParse hasObserver now d st = st)) \<and>
         (jsonParse s = Some message \<longrightarrow>
            connection (onmessage_part001 jsonParse hasObserver now (Text s) st) = connection st \<and>
            lastPongRef (onmessage_part001 jsonParse hasObserver now (Text s) st) = lastPongRef st \<and>
            messages (onmessage_part001 jsonParse hasObserver now (Text s) st) =
              pushMessage message (messages st) \<and>
            forwarded (onmessage_part001 jsonParse hasObserver now (Text s) st) =
              forwarded st @ delivered hasObserver message)"
proof (intro conjI impI)
  assume d: "decodeTolerant jsonParse d = message"
  note eq = onmessage_tagged [of jsonParse d t hasObserver now st, unfolded d, OF assms]
  show "connection (onmessage jsonParse hasObserver now d st) = connection st"
    by (simp add: eq Let_def split: sum.splits)
  show "lastPongRef (onmessage jsonParse hasObserver now d st) = lastPongRef st"
    by (simp add: eq Let_def split: sum.splits)
  {
    assume "t = ''log''"
    then show "messages (onmessage jsonParse hasObserver now d st) = pushMessage message (messages st)"
      and "forwarded (onmessage jsonParse hasObserver now d st) = forwarded st @ delivered hasObserver message"
      by (simp_all add: eq Let_def)
  }
  {
    assume "t = ''order''"
    then show "forwarded (onmessage jsonParse hasObserver now d st) = forwarded st"
      and "messages (onmessage jsonParse hasObserver now d st) =
                 (case orderFields message of
                    Inl e \<Rightarrow> messages st
                  | Inr fs \<Rightarrow> pushMessage message (messages st))"
      by (simp_all add: eq Let_def split: sum.splits)
  }
  {
    assume e: "t = ''error''"
    from readable_all [OF assms(1)] obtain v where "getProp message ''data'' = Inr v" by blast
    with e show "forwarded (onmessage jsonParse hasObserver now d st) = forwarded st"
      and "messages (onmessage jsonParse hasObserver now d st) = pushMessage message (messages st)"
      by (simp_all add: eq Let_def)
  }
  {
    assume "t \<noteq> ''log'' \<and> t \<noteq> ''order'' \<and> t \<noteq> ''error''"
    then show "onmessage jsonParse hasObserver now d st = st"
      by (simp add: eq Let_def)
  }
next
  assume p: "jsonParse s = Some message"
  let ?r = "onmessage_part001 jsonParse hasObserver now (Text s) st"
  from readable_all [OF assms(1)] obtain v where v: "getProp message ''data'' = Inr v"
    by blast
  have eq: "?r =
    (let st1 = notify hasObserver message (st\<lparr>messages := pushMessage message (messages st)\<rparr>)
     in if t = ''order'' then
          (case orderFields message of Inl e \<Rightarrow> st1 | Inr fs \<Rightarrow> showToast (ToastInfo fs) st1)
        else if t = ''error'' then showToast (ToastError [v]) st1
        else st1)"
    using p assms v by (simp add: onmessage_part001_def Let_def)
  show "connection ?r = connection st"
    by (simp add: eq Let_def split: sum.splits)
  show "lastPongRef ?r = lastPongRef st"
    by (simp add: eq Let_def split: sum.splits)
  show "messages ?r = pushMessage message (messages st)"
    by (simp add: eq Let_def split: sum.splits)
  show "forwarded ?r = forwarded st @ delivered hasObserver message"
    by (simp add: eq Let_def split: sum.splits)
qed

theorem accepted_message_by_type_witness:
  "getProp sampleLog ''type'' = Inr (JStr ''log'') \<and>
   decodeTolerant sampleParse (Text ''log-frame'') = sampleLog \<and>
   messages (onmessage sampleParse True 5 (Text ''log-frame'') sampleOpen) = [sampleLog] \<and>
   forwarded (onmessage sampleParse True 5 (Text ''log-frame'') sampleOpen) = [sampleLog] \<and>
   connection (onmessage sampleParse True 5 (Text ''log-frame'') sampleOpen) =
     connection sampleOpen \<and>
   getProp sampleOrder ''type'' = Inr (JStr ''order'') \<and>
   sampleParse ''order-frame'' = Some sampleOrder \<and>
   messages (onmessage sampleParse True 5 (Text ''order-frame'') sampleOpen) = [sampleOrder] \<and>
   forwarded (onmessage sampleParse True 5 (Text ''order-frame'') sampleOpen) = [] \<and>
   messages (onmessage_part001 sampleParse True 5 (Text ''order-frame'') sampleOpen) =
     [sampleOrder] \<and>
   forwarded (onmessage_part001 sampleParse True 5 (Text ''order-frame'') sampleOpen) =
     [sampleOrder]"
proof -
  have a: "getProp sampleLog ''type'' = Inr (JStr ''log'')" by (simp add: sampleLog_def)
  have b: "decodeTolerant sampleParse (Text ''log-frame'') = sampleLog"
    by (simp add: decodeTolerant_def sampleParse_def)
  have c: "getProp sampleOrder ''type'' = Inr (JStr ''order'')" by (simp add: sampleOrder_def)
  have d: "sampleParse ''order-frame'' = Some sampleOrder" by (simp add: sampleParse_def)
  have e: "decodeTolerant sampleParse (Text ''order-frame'') = sampleOrder"
    by (simp add: decodeTolerant_def d)
  have f: "messages sampleOpen = []" "forwarded sampleOpen = []"
    by (simp_all add: sampleOpen_eq)
  from accepted_message_by_type [of sampleLog "''log''" sampleParse "Text ''log-frame''"
      True 5 sampleOpen "''log-frame''"] a b f
  have 1: "messages (onmessage sampleParse True 5 (Text ''log-frame'') sampleOpen) = [sampleLog]"
    "forwarded (onmessage sampleParse True 5 (Text ''log-frame'') sampleOpen) = [sampleLog]"
    "connection (onmessage sampleParse True 5 (Text ''log-frame'') sampleOpen) =
       connection sampleOpen"
    by (simp_all add: pushMessage_def delivered_def)
  from accepted_message_by_type [of sampleOrder "''order''" sampleParse "Text ''order-frame''"
      True 5 sampleOpen "''order-frame''"] c d e f sampleOrder_fields
  have 2: "messages (onmessage sampleParse True 5 (Text ''order-frame'') sampleOpen) = [sampleOrder]"
    "forwarded (onmessage sampleParse True 5 (Text ''order-frame'') sampleOpen) = []"
    "messages (onmessage_part001 sampleParse True 5 (Text ''order-frame'') sampleOpen) = [sampleOrder]"
    "forwarded (onmessage_part001 sampleParse True 5 (Text ''order-frame'') sampleOpen) = [sampleOrder]"
    by (simp_all add: pushMessage_def delivered_def)
  from a b c d 1 2 show ?thesis by simp
qed

subsection \<open>One handle at a time\<close>

lemma wellFormed_initial: "wellFormed (initial now)"
  by (simp add: wellFormed_def initial_def)

lemma hasState_connection:
  "hasState st i r =
     (i < length (fst (connection st)) \<and> fst (connection st) ! i = r)"
  by (auto simp: hasState_def connection_def)

lemma wellFormed_connection:
  "connection st' = connection st \<Longrightarrow> wellFormed st' = wellFormed st"
proof -
  assume c: "connection st' = connection st"
  then have h: "hasState st' i r = hasState st i r" for i r
    by (simp add: hasState_connection)
  from c have f: "socketRef st' = socketRef st" "timeouts st' = timeouts st"
    "intervals st' = intervals st" "reconnectTimeoutRef st' = reconnectTimeoutRef st"
    "heartbeatIntervalRef st' = heartbeatIntervalRef st"
    "length (sockets st') = length (sockets st)"
    by (auto simp: connection_def dest: map_eq_imp_length_eq)
  show ?thesis
    by (simp add: wellFormed_def idle_def h f)
qed

lemma connection_onmessage: "connection (onmessage p ob now d st) = connection st"
proof -
  have "connection (st\<lparr>lastPongRef := now\<rparr>) = connection st"
    by (simp add: connection_def)
  then show ?thesis
    by (simp add: onmessage_def Let_def split: sum.splits bool.splits)
qed

lemma connection_onerror: "connection (onerror m st) = connection st"
  by (simp add: onerror_def)

lemma hasState_append_old:
  "i < length (sockets st) \<Longrightarrow>
   hasState (st\<lparr>sockets := sockets st @ [s], socketRef := x\<rparr>) i r = hasState st i r"
  by (simp add: hasState_def nth_append)

lemma wellFormed_connect_idle:
  assumes "wellFormed st" and "idle st"
  shows "wellFormed (connectWebSocket a c st)"
proof -
  from assms have i0: "intervals st = []"
    by (auto simp: wellFormed_def idle_def hasState_def)
  from assms have t0: "filter (\<lambda>(t', d, a). t' \<noteq> t) (timeouts st) = []"
    if "reconnectTimeoutRef st = Some t" for t
    using that by (auto simp: wellFormed_def)
  from assms have t1: "timeouts st = []" if "reconnectTimeoutRef st = None"
    using that by (auto simp: wellFormed_def)
  from assms have cl: "\<forall>j < length (sockets st). hasState st j CLOSED"
    by (auto simp: wellFormed_def idle_def)
  from assms have rf: "\<forall>i. socketRef st = Some i \<longrightarrow> i < length (sockets st)"
    by (simp add: wellFormed_def)
  show ?thesis
    using i0 t0 t1 cl rf
    by (auto simp: connectWebSocket_def Let_def clearTimeout_def clearInterval_def
        scheduleReconnect_def ws_close_def wellFormed_def idle_def hasState_def nth_append
        split: option.splits)
qed


lemma wellFormed_current:
  assumes "wellFormed st" and "i < length (sockets st)" and "\<not> hasState st i CLOSED"
  shows "socketRef st = Some i"
  using assms by (auto simp: wellFormed_def)

lemma wellFormed_effect: "wellFormed st \<Longrightarrow> wellFormed (effectOnline online c st)"
  by (auto simp: effectOnline_def idle_def intro!: wellFormed_connect_idle split: option.splits)

lemma wellFormed_open:
  assumes "wellFormed st" and "hasState st i CONNECTING"
  shows "wellFormed (onopen now (setReadyState i OPEN st))"
proof -
  from assms have cur: "socketRef st = Some i"
    by (intro wellFormed_current) (auto simp: hasState_def)
  with assms have "timeouts st = []" and "intervals st = []"
    by (auto simp: wellFormed_def idle_def hasState_def)
  with assms cur show ?thesis
    by (auto simp: wellFormed_def idle_def hasState_def onopen_def setReadyState_def
        nth_list_update)
qed

lemma wellFormed_close:
  assumes "wellFormed st" and "i < length (sockets st)" and "\<not> hasState st i CLOSED"
  shows "wellFormed (onclose a code w (setReadyState i CLOSED st))"
proof -
  from assms have cur: "socketRef st = Some i"
    by (rule wellFormed_current)
  with assms have t: "timeouts st = []"
    by (auto simp: wellFormed_def idle_def)
  from assms have iv: "intervals st = [] \<or> (\<exists>h. intervals st = [h] \<and> heartbeatIntervalRef st = Some h)"
    by (auto simp: wellFormed_def)
  from assms(1) have cl: "\<forall>j < length (sockets st). j \<noteq> i \<longrightarrow> readyState (sockets st ! j) = CLOSED"
    using cur by (auto simp: wellFormed_def hasState_def)
  show ?thesis
    using cur t iv cl assms(2)
    by (auto simp: wellFormed_def idle_def hasState_def onclose_def Let_def setReadyState_def
        showToast_def clearInterval_def scheduleReconnect_def nth_list_update
        split: option.splits)
qed

lemma wellFormed_tick:
  assumes "wellFormed st" and "h \<in> set (intervals st)"
  shows "wellFormed (heartbeatTick f now st)"
proof -
  from assms obtain i where cur: "socketRef st = Some i"
    and live: "hasState st i OPEN \<or> hasState st i CLOSING"
    and iv: "intervals st = [h]" "heartbeatIntervalRef st = Some h"
    by (auto simp: wellFormed_def)
  with assms(1) have t: "timeouts st = []"
    by (auto simp: wellFormed_def idle_def hasState_def)
  from assms(1) cur have cl: "\<forall>j < length (sockets st). j \<noteq> i \<longrightarrow> readyState (sockets st ! j) = CLOSED"
    by (auto simp: wellFormed_def hasState_def)
  from live have len: "i < length (sockets st)" by (auto simp: hasState_def)
  show ?thesis
    using cur live iv t cl len
    by (auto simp: wellFormed_def idle_def hasState_def heartbeatTick_def checkConnection_def
        sendHeartbeat_def ws_send_def ws_close_def nth_list_update)
qed

lemma find_timeout:
  "find (\<lambda>(t', d, a). t' = t) ts = Some (t', d, a) \<Longrightarrow> (t, d, a) \<in> set ts \<and> t' = t"
  by (induction ts) (auto split: if_splits)

lemma wellFormed_timeout:
  assumes "wellFormed st" and "find (\<lambda>(t', d, a). t' = t) (timeouts st) = Some (t', d, a)"
  shows "wellFormed (fireReconnect a c (clearTimeout t st))"
proof -
  from find_timeout [OF assms(2)] have m: "(t, d, a) \<in> set (timeouts st)" by simp
  with assms(1) have ts: "timeouts st = [(t, d, a)]" and id: "idle st"
    by (auto simp: wellFormed_def)
  let ?st = "(clearTimeout t st)\<lparr>reconnectAttempts := reconnectAttempts (clearTimeout t st) + 1\<rparr>"
  from assms(1) ts id have "wellFormed ?st" and "idle ?st"
    by (auto simp: wellFormed_def idle_def hasState_def clearTimeout_def)
  then show ?thesis
    unfolding fireReconnect_def by (rule wellFormed_connect_idle)
qed

lemma wellFormed_step:
  assumes "wellFormed st" and "step p ob e st = Some st'"
  shows "wellFormed st'"
proof (cases e)
  case (EffectRun online c)
  with assms show ?thesis by (auto intro: wellFormed_effect)
next
  case (SocketOpened i now)
  with assms show ?thesis by (auto intro: wellFormed_open split: if_splits)
next
  case (SocketMessage i d now)
  with assms show ?thesis
    by (auto simp: wellFormed_connection [OF connection_onmessage] split: if_splits)
next
  case (SocketClosed i code w)
  with assms show ?thesis by (auto intro: wellFormed_close split: if_splits)
next
  case (SocketError i m)
  with assms show ?thesis
    by (auto simp: wellFormed_connection [OF connection_onerror] split: if_splits)
next
  case (IntervalTick h f now)
  with assms show ?thesis by (auto intro: wellFormed_tick split: if_splits)
next
  case (TimeoutFired t c)
  with assms show ?thesis
    by (auto intro: wellFormed_timeout split: option.splits)
qed

lemma reachable_wellFormed: "reachable p ob st \<Longrightarrow> wellFormed st"
  by (induction rule: reachable.induct) (auto intro: wellFormed_initial wellFormed_step)

lemma wellFormed_one_open:
  assumes "wellFormed st" and "hasState st i OPEN" and "hasState st j OPEN"
  shows "i = j"
proof -
  from assms(1,2) have "socketRef st = Some i"
    by (intro wellFormed_current) (auto simp: hasState_def)
  moreover from assms(1,3) have "socketRef st = Some j"
    by (intro wellFormed_current) (auto simp: hasState_def)
  ultimately show ?thesis by simp
qed

lemma connect_cancels:
  assumes "wellFormed st"
  shows "timeouts (connectWebSocket a c st) =
           (if c then [(nextId st, backoffDelay a, a)] else []) \<and>
         intervals (connectWebSocket a c st) = [] \<and>
         heartbeatIntervalRef (connectWebSocket a c st) = None"
proof -
  from assms have t0: "filter (\<lambda>(t', d, a). t' \<noteq> t) (timeouts st) = []"
    if "reconnectTimeoutRef st = Some t" for t
    using that by (auto simp: wellFormed_def)
  from assms have t1: "timeouts st = []" if "reconnectTimeoutRef st = None"
    using that by (auto simp: wellFormed_def)
  from assms have i0: "removeAll h (intervals st) = []" if "heartbeatIntervalRef st = Some h" for h
    using that by (auto simp: wellFormed_def)
  from assms have i1: "intervals st = []" if "heartbeatIntervalRef st = None"
    using that by (auto simp: wellFormed_def)
  show ?thesis
    using t0 t1 i0 i1
    by (auto simp: connectWebSocket_def Let_def clearTimeout_def clearInterval_def
        scheduleReconnect_def ws_close_def split: option.splits)
qed

lemma connect_supersedes:
  assumes "socketRef st = Some i" and "hasState st i OPEN \<or> hasState st i CONNECTING"
  shows "hasState (connectWebSocket a c st) i CLOSING \<and>
         closeRequest (sockets (connectWebSocket a c st) ! i) =
           Some (4000, ''New connection attempt'')"
  using assms
  by (auto simp: connectWebSocket_def Let_def clearTimeout_def clearInterval_def
      scheduleReconnect_def ws_close_def hasState_def nth_append split: option.splits)

lemma connect_new_handle:
  "socketRef (connectWebSocket a False st) = Some (length (sockets st)) \<and>
   hasState (connectWebSocket a False st) (length (sockets st)) CONNECTING \<and>
   length (sockets (connectWebSocket a False st)) = Suc (length (sockets st)) \<and>
   reconnectTimeoutRef (connectWebSocket a False st) = None"
  by (auto simp: connectWebSocket_def Let_def clearTimeout_def clearInterval_def
      ws_close_def hasState_def nth_append split: option.splits)

lemma connect_none_open:
  assumes "wellFormed st"
  shows "\<not> hasState (connectWebSocket a c st) j OPEN"
proof
  assume o: "hasState (connectWebSocket a c st) j OPEN"
  from assms have cl: "\<forall>k < length (sockets st). socketRef st \<noteq> Some k \<longrightarrow>
      readyState (sockets st ! k) = CLOSED"
    by (auto simp: wellFormed_def hasState_def)
  from assms have rf: "\<forall>i. socketRef st = Some i \<longrightarrow> i < length (sockets st)"
    by (simp add: wellFormed_def)
  from o cl rf show False
    by (auto simp: connectWebSocket_def Let_def clearTimeout_def clearInterval_def
        scheduleReconnect_def ws_close_def hasState_def nth_append nth_list_update
        split: option.splits if_splits)
qed

text \<open>
  C6. In every state the component can reach, a call of \<^verbatim>\<open>connectWebSocket\<close> leaves
  no timeout pending but the retry it schedules itself when the constructor throws, and no
  interval running; a current handle that is open or connecting is closing afterwards, on
  a close request with code 4000; when the constructor does not throw, the new handle is
  the next one, it is connecting and it is the current one. No handle is open after the
  call, and no reachable state has two open handles.
\<close>

theorem new_attempt_supersedes_previous:
  assumes "reachable jsonParse hasObserver st" and "st' = connectWebSocket attempts ctorThrows st"
  shows "timeouts st' = (if ctorThrows then [(nextId st, backoffDelay attempts, attempts)] else []) \<and>
         intervals st' = [] \<and> heartbeatIntervalRef st' = None \<and>
         (\<forall>i. socketRef st = Some i \<and> (hasState st i OPEN \<or> hasState st i CONNECTING) \<longrightarrow>
              hasState st' i CLOSING \<and>
              closeRequest (sockets st' ! i) = Some (4000, ''New connection attempt'')) \<and>
         (\<not> ctorThrows \<longrightarrow>
              reconnectTimeoutRef st' = None \<and>
              socketRef st' = Some (length (sockets st)) \<and>
              hasState st' (length (sockets st)) CONNECTING \<and>
              length (sockets st') = Suc (length (sockets st))) \<and>
         (\<forall>j. \<not> hasState st' j OPEN) \<and>
         (\<forall>i j. hasState st i OPEN \<and> hasState st j OPEN \<longrightarrow> i = j)"
proof -
  from assms(1) have wf: "wellFormed st" by (rule reachable_wellFormed)
  note cancel = connect_cancels [OF wf, of attempts ctorThrows, folded assms(2)]
  have super: "\<forall>i. socketRef st = Some i \<and> (hasState st i OPEN \<or> hasState st i CONNECTING) \<longrightarrow>
              hasState st' i CLOSING \<and>
              closeRequest (sockets st' ! i) = Some (4000, ''New connection attempt'')"
    unfolding assms(2) using connect_supersedes by blast
  have new: "\<not> ctorThrows \<longrightarrow>
              reconnectTimeoutRef st' = None \<and>
              socketRef st' = Some (length (sockets st)) \<and>
              hasState st' (length (sockets st)) CONNECTING \<and>
              length (sockets st') = Suc (length (sockets st))"
    unfolding assms(2) using connect_new_handle [of attempts st] by simp
  have none: "\<forall>j. \<not> hasState st' j OPEN"
    unfolding assms(2) using connect_none_open [OF wf] by blast
  have one: "\<forall>i j. hasState st i OPEN \<and> hasState st j OPEN \<longrightarrow> i = j"
    using wellFormed_one_open [OF wf] by blast
  from cancel super new none one show ?thesis by blast
qed

theorem new_attempt_supersedes_previous_witness:
  "reachable sampleParse True sampleOpen \<and>
   socketRef sampleOpen = Some 0 \<and> hasState sampleOpen 0 OPEN \<and>
   intervals sampleOpen = [1] \<and>
   hasState (connectWebSocket 0 False sampleOpen) 0 CLOSING \<and>
   closeRequest (sockets (connectWebSocket 0 False sampleOpen) ! 0) =
     Some (4000, ''New connection attempt'') \<and>
   socketRef (connectWebSocket 0 False sampleOpen) = Some 1 \<and>
   hasState (connectWebSocket 0 False sampleOpen) 1 CONNECTING \<and>
   timeouts (connectWebSocket 0 False sampleOpen) = [] \<and>
   intervals (connectWebSocket 0 False sampleOpen) = []"
proof -
  have a: "socketRef sampleOpen = Some 0" "hasState sampleOpen 0 OPEN"
    "intervals sampleOpen = [1]" "length (sockets sampleOpen) = 1"
    by (simp_all add: sampleOpen_eq hasState_def)
  from new_attempt_supersedes_previous [OF sampleOpen_reachable [of sampleParse True] refl,
      where attempts = 0 and ctorThrows = False] a
  show ?thesis using sampleOpen_reachable by simp
qed

subsection \<open>Heartbeat timeout\<close>

text \<open>
  C1. The connection opens at time 0 and nothing arrives. The tick at 30001 ms sends a ping
  and closes the handle with code 4000, which is also the code of a superseded handle. When
  the close event arrives with that code, the handle is closed and the component stays
  with it: no timeout is pending and no timer is remembered, so that no reconnection is
  scheduled.
\<close>

theorem heartbeat_timeout_not_retried:
  "map_option (\<lambda>st. (closeRequest (sockets st ! 0), readyState (sockets st ! 0)))
     (run sampleParse True
        [EffectRun True False, SocketOpened 0 0, IntervalTick 1 False 30001] (initial 0)) =
     Some (Some (4000, ''Pong timeout''), CLOSING) \<and>
   map_option (\<lambda>st. (timeouts st, reconnectTimeoutRef st, socketRef st, readyState (sockets st ! 0)))
     (run sampleParse True
        [EffectRun True False, SocketOpened 0 0, IntervalTick 1 False 30001,
         SocketClosed 0 4000 True] (initial 0)) =
     Some ([], None, Some 0, CLOSED)"
  by (simp add: effectOnline_def initial_def connectWebSocket_def hasState_def setReadyState_def
      onopen_def heartbeatTick_def sendHeartbeat_def checkConnection_def ws_send_def ws_close_def
      onclose_def Let_def clearInterval_def)

subsection \<open>Backoff\<close>

lemma backoffDelay_bounds: "1000 \<le> backoffDelay n \<and> backoffDelay n \<le> 30000"
  by (simp add: backoffDelay_def)

lemma backoffDelay_mono: "m \<le> n \<Longrightarrow> backoffDelay m \<le> backoffDelay n"
  by (simp add: backoffDelay_def min_le_iff_disj)

text \<open>
  C3. The connection opens and then fails with code 1006: a retry is scheduled after
  1000 ms. The timer fires, counts the attempt and calls the \<^verbatim>\<open>connectWebSocket\<close> of
  its own closure, whose \<^verbatim>\<open>reconnectAttempts\<close> is still 0. The new handle fails with
  code 1006 as well: one retry has been scheduled since the connection was open, and the
  next one is scheduled after 1000 ms again, not after the 2000 ms of one attempt.
\<close>

theorem retry_delay_does_not_grow:
  "map_option (\<lambda>st. (reconnectAttempts st, timeouts st))
     (run sampleParse True
        [EffectRun True False, SocketOpened 0 0, SocketClosed 0 1006 False,
         TimeoutFired 2 False, SocketClosed 1 1006 False] (initial 0)) =
     Some (1, [(3, 1000, 0)]) \<and>
   backoffDelay 1 = 2000"
  by (simp add: effectOnline_def initial_def connectWebSocket_def hasState_def setReadyState_def
      onopen_def onclose_def Let_def clearInterval_def clearTimeout_def scheduleReconnect_def
      showToast_def fireReconnect_def backoffDelay_def)

end
